theory Spec2Isabelle
  imports Main
begin

section \<open>Values, rejection reasons and pull streams\<close>

text \<open>
  The main process of the desktop application (the boot script with its IPC listeners)
  is embedded as an event-driven state machine: one step of the machine is one callback
  of the JavaScript event loop, with all promise reactions it triggers run to
  completion. Calls to the external collaborators (docker manager, client core,
  window, logger, notification helper) are recorded in a trace of effects; how a
  collaborator answers is an event supplied by the environment. An answer to a call
  that is not pending is ignored.
\<close>

datatype jsval = JUndefined | JStr string | JNum int | JObj "(string \<times> jsval) list"

text \<open>
  A rejection reason or thrown value: \<open>undefined\<close> or \<open>null\<close>, a primitive string, or an
  object with fields.
\<close>

datatype reason = RNullish | RStr string | RObj "(string \<times> jsval) list"

text \<open>
  Property read \<open>err.k\<close> for the keys the handlers read (message, stack, error, input):
  a primitive string has none of them; an object yields its field or undefined. Reading a
  property of \<open>undefined\<close> or \<open>null\<close> throws a TypeError: every handler below tests for
  \<open>RNullish\<close> before it reads and takes the path of the exception, so the value given
  here for \<open>RNullish\<close> is never used.
\<close>

fun field :: "reason \<Rightarrow> string \<Rightarrow> jsval" where
  "field RNullish k = JUndefined"
| "field (RStr s) k = JUndefined"
| "field (RObj fs) k = (case map_of fs k of Some v \<Rightarrow> v | None \<Rightarrow> JUndefined)"

text \<open>
  The TypeError of reading property \<open>what\<close> of \<open>undefined\<close>. The wording of message and
  stack is the engine's; nothing below depends on it.
\<close>

definition type_error :: "string \<Rightarrow> reason" where
  "type_error what =
     RObj [(''message'', JStr (''Cannot read property '' @ what @ '' of undefined'')),
           (''stack'', JStr (''TypeError: Cannot read property '' @ what @ '' of undefined''))]"

text \<open>How a promise returned by a collaborator settles.\<close>

datatype 'a settled = Resolves 'a | Rejects reason

text \<open>
  The \<open>stream\<close> member of an entry of \<open>compStreams\<close>: an event emitter
  (\<open>typeof stream.on === 'function'\<close>), or the plain object with \<open>message\<close> and
  \<open>statusCode\<close> of a pull that did not start.
\<close>

datatype stream = Emitter | Plain string int

section \<open>The image list of a pipeline\<close>

record computation =
  dockerImage :: string

record step_computation =
  computation :: computation

record pipeline_step =
  computations :: "step_computation list"

record pipeline =
  pipeline_name :: string
  steps :: "pipeline_step list"

text \<open>
  \<^verbatim>\<open>pipeline.steps.map(step => step.computations.map(comp => comp.computation.dockerImage))
          .reduce((acc, val) => acc.concat(val), [])\<close>
\<close>

definition step_images :: "pipeline_step \<Rightarrow> string list" where
  "step_images st = map (\<lambda>comp. dockerImage (computation comp)) (computations st)"

definition computationImageList :: "pipeline \<Rightarrow> string list" where
  "computationImageList p = foldl (\<lambda>acc val. acc @ val) [] (map step_images (steps p))"

section \<open>The start-pipeline listener\<close>

text \<open>
  The parameters of one \<open>start-pipeline\<close> message: the consortium, and the run with its
  pipeline snapshot after \<open>parsePipelineInput\<close> has replaced the steps.
\<close>

record request =
  consortium_id :: string
  consortium_name :: string
  run_id :: string
  run_type :: string
  pipelineSnapshot :: pipeline

datatype effect =
    Send_save_local_run
  | Send_state_update jsval
  | Send_local_run_error string "(string \<times> jsval) list"
  | Send_local_run_complete string jsval
  | Send_docker_error "(string \<times> jsval) list"
  | Log_verbose string
  | Log_value jsval
  | Log_error reason
  | Notify string string
  | Call_pullImagesFromList "string list"
  | Call_unlinkFiles string
  | Call_pruneImages
  | Call_startPipeline string string
  | Call_requestPipelineStop string string

text \<open>What \<open>initializedCore.requestPipelineStop\<close> does when called: it throws, or it returns.\<close>

datatype stop_result = Stop_throws reason | Stop_returns "unit settled"

text \<open>
  The callbacks of the event loop that bear on one run: the answers of the
  collaborators, the signals of the pull streams and of the engine, a stop-pipeline
  message, and the two moments at which the session variable \<open>initializedCore\<close> changes
  (the callback of logout clears it, the callback of login-init sets it).
\<close>

datatype event =
    Pull_list_settled "stream list settled"
  | Stream_data nat string
  | Stream_end nat
  | Stream_error nat reason
  | Unlink_settled "unit settled"
  | Prune_settled "unit settled"
  | Start_settled "unit settled"
  | Engine_update jsval
  | Result_settled "jsval settled"
  | Stop_pipeline string string stop_result
  | Logout
  | Login

datatype pstate = Pending | Fulfilled | Rejected reason

text \<open>
  Where the promise chain of the listener stands: which collaborator's promise it waits
  for, or how the chain as a whole has settled.
\<close>

datatype phase =
    Awaiting_pull
  | Acquiring
  | Cleaning_acquisition reason
  | Pruning
  | Starting
  | Executing
  | Cleaning_completed jsval
  | Cleaning_failed reason
  | Chain_fulfilled
  | Chain_rejected reason

record state =
  phase :: phase
  initialized :: bool
  compStreams :: "stream list"
  streamProms :: "pstate list"
  all_prom :: pstate
  updates_on :: bool
  run_error :: "(string \<times> jsval) list option"
  run_results :: "jsval option"
  run_ended :: bool
  trace :: "effect list"

definition emit :: "effect list \<Rightarrow> state \<Rightarrow> state" where
  "emit es s = s\<lparr>trace := trace s @ es\<rparr>"

definition downloading :: string where
  "downloading = ''Downloading required docker images''"

definition state_data :: "string \<Rightarrow> jsval" where
  "state_data txt = JObj [(''controllerState'', JStr txt)]"

definition error3 :: "reason \<Rightarrow> (string \<times> jsval) list" where
  "error3 err = [(''message'', field err ''message''), (''stack'', field err ''stack''),
                 (''error'', field err ''error'')]"

definition error4 :: "reason \<Rightarrow> (string \<times> jsval) list" where
  "error4 err = [(''message'', field err ''message''), (''stack'', field err ''stack''),
                 (''error'', field err ''error''), (''input'', field err ''input'')]"

text \<open>
  \<open>mainWindow.webContents.send('local-run-error', ...)\<close> with
  \<open>Object.assign(run, {error, endDate})\<close>: the run object is mutated and sent.
\<close>

definition send_run_error :: "request \<Rightarrow> (string \<times> jsval) list \<Rightarrow> state \<Rightarrow> state" where
  "send_run_error rq fs s =
     emit [Send_local_run_error (consortium_name rq) fs]
       (s\<lparr>run_error := Some fs, run_ended := True\<rparr>)"

text \<open>The executor of each promise pushed on \<open>streamProms\<close>, and the \<open>forEach\<close> body.\<close>

fun initial_prom :: "stream \<Rightarrow> pstate" where
  "initial_prom (Plain message statusCode) = Rejected (RStr message)"
| "initial_prom Emitter = Pending"

fun initial_updates :: "stream list \<Rightarrow> effect list" where
  "initial_updates [] = []"
| "initial_updates (Emitter # ss) = Send_state_update (state_data downloading) # initial_updates ss"
| "initial_updates (Plain message statusCode # ss) = initial_updates ss"

text \<open>
  \<open>Promise.all\<close>: rejected with the reason of the first rejection it is notified of,
  fulfilled once every element is fulfilled. On creation the reactions of the promises
  already rejected are queued in list order, so the first rejected element wins.
\<close>

fun first_rejected :: "pstate list \<Rightarrow> reason option" where
  "first_rejected [] = None"
| "first_rejected (Rejected r # ps) = Some r"
| "first_rejected (p # ps) = first_rejected ps"

definition all_fulfilled :: "pstate list \<Rightarrow> bool" where
  "all_fulfilled ps = list_all (\<lambda>p. p = Fulfilled) ps"

definition promise_all :: "pstate list \<Rightarrow> pstate" where
  "promise_all ps =
     (case first_rejected ps of
        Some r \<Rightarrow> Rejected r
      | None \<Rightarrow> if all_fulfilled ps then Fulfilled else Pending)"

text \<open>
  The \<open>.catch\<close> after the acquisition (l.228): it calls \<open>initializedCore.unlinkFiles\<close>; with
  \<open>initializedCore\<close> cleared the property read throws and the chain is rejected.
\<close>

definition acquisition_catch :: "request \<Rightarrow> reason \<Rightarrow> state \<Rightarrow> state" where
  "acquisition_catch rq err s =
     (if initialized s
      then emit [Call_unlinkFiles (run_id rq)] (s\<lparr>phase := Cleaning_acquisition err\<rparr>)
      else s\<lparr>phase := Chain_rejected (type_error ''unlinkFiles'')\<rparr>)"

text \<open>The \<open>.then\<close> that calls \<open>initializedCore.dockerManager.pruneImages\<close> (l.247).\<close>

definition then_prune :: "state \<Rightarrow> state" where
  "then_prune s =
     (if initialized s
      then emit [Call_pruneImages] (s\<lparr>phase := Pruning\<rparr>)
      else s\<lparr>phase := Chain_rejected (type_error ''dockerManager'')\<rparr>)"

text \<open>
  The reactions to the aggregate promise: the \<open>.catch\<close> when it is rejected; when it is
  fulfilled the \<open>.catch\<close> is passed over and the next \<open>.then\<close> prunes.
\<close>

definition on_acquired :: "request \<Rightarrow> pstate \<Rightarrow> state \<Rightarrow> state" where
  "on_acquired rq p s =
     (case p of
        Rejected err \<Rightarrow> acquisition_catch rq err s
      | Fulfilled \<Rightarrow> then_prune s
      | Pending \<Rightarrow> s\<lparr>phase := Acquiring\<rparr>)"

definition listening :: "state \<Rightarrow> nat \<Rightarrow> bool" where
  "listening s i = (i < length (compStreams s) \<and> compStreams s ! i = Emitter)"

text \<open>
  The outer \<open>.catch\<close> of \<open>startPipeline\<close> (l.321): it reads the error and sends the record,
  with no call of \<open>unlinkFiles\<close>. Reading a nullish error throws, and the chain is
  rejected.
\<close>

definition outer_catch :: "request \<Rightarrow> reason \<Rightarrow> state \<Rightarrow> state" where
  "outer_catch rq e s =
     (if e = RNullish then s\<lparr>phase := Chain_rejected (type_error ''message'')\<rparr>
      else send_run_error rq (error3 e) (s\<lparr>phase := Chain_fulfilled\<rparr>))"

text \<open>
  The \<open>.catch\<close> after \<open>result.then\<close> (l.292): log, log the message, notify, release the
  staged files. \<open>error.message\<close> of a nullish error throws at l.294, and
  \<open>initializedCore.unlinkFiles\<close> throws at l.301 when \<open>initializedCore\<close> is cleared; either
  exception is caught by the outer \<open>.catch\<close>.
\<close>

definition on_result_error :: "request \<Rightarrow> reason \<Rightarrow> state \<Rightarrow> state" where
  "on_result_error rq err s =
     (if err = RNullish
      then outer_catch rq (type_error ''message'')
             (emit [Log_verbose ''########### Client pipeline error''] s)
      else if initialized s
      then emit [Log_verbose ''########### Client pipeline error'',
                 Log_value (field err ''message''),
                 Notify ''Pipeline stopped''
                   (''Pipeline '' @ pipeline_name (pipelineSnapshot rq) @ '' stopped on consortia ''
                      @ consortium_name rq),
                 Call_unlinkFiles (run_id rq)]
             (s\<lparr>phase := Cleaning_failed err\<rparr>)
      else outer_catch rq (type_error ''unlinkFiles'')
             (emit [Log_verbose ''########### Client pipeline error'',
                    Log_value (field err ''message''),
                    Notify ''Pipeline stopped''
                      (''Pipeline '' @ pipeline_name (pipelineSnapshot rq) @ '' stopped on consortia ''
                         @ consortium_name rq)] s))"

text \<open>
  The \<open>stop-pipeline\<close> listener: what it sends and what it returns. The argument is what
  \<open>requestPipelineStop\<close> does, or \<open>None\<close> when \<open>initializedCore\<close> is cleared and the property
  read throws inside the \<open>try\<close>. The \<open>catch\<close> logs the error and reads its message; for a
  nullish error that read throws out of the listener.
\<close>

datatype handler_result = Returned "unit settled" | Returned_undefined | Threw reason

definition stop_catch :: "reason \<Rightarrow> effect list \<times> handler_result" where
  "stop_catch err =
     (if err = RNullish then ([Log_error err], Threw (type_error ''message''))
      else ([Log_error err,
             Send_docker_error [(''message'', field err ''message''), (''stack'', field err ''stack'')]],
            Returned_undefined))"

fun stop_pipeline ::
  "string \<Rightarrow> string \<Rightarrow> stop_result option \<Rightarrow> effect list \<times> handler_result" where
  "stop_pipeline pipelineId runId None = stop_catch (type_error ''requestPipelineStop'')"
| "stop_pipeline pipelineId runId (Some (Stop_returns p)) =
     ([Call_requestPipelineStop pipelineId runId], Returned p)"
| "stop_pipeline pipelineId runId (Some (Stop_throws err)) =
     (Call_requestPipelineStop pipelineId runId # fst (stop_catch err), snd (stop_catch err))"

section \<open>One callback of the event loop\<close>

text \<open>
  \<open>pullImagesFromList\<close> settles. Rejected: the \<open>.then\<close> is passed over and the \<open>.catch\<close>
  runs. Resolved: the \<open>forEach\<close> builds \<open>streamProms\<close> and attaches the listeners, and the
  aggregate \<open>Promise.all(streamProms)\<close> is returned into the chain.
\<close>

definition on_pull_list :: "request \<Rightarrow> stream list settled \<Rightarrow> state \<Rightarrow> state" where
  "on_pull_list rq r s =
     (if phase s \<noteq> Awaiting_pull then s
      else case r of
        Rejects err \<Rightarrow> acquisition_catch rq err s
      | Resolves ss \<Rightarrow>
          on_acquired rq (promise_all (map initial_prom ss))
            (emit (initial_updates ss)
               (s\<lparr>compStreams := ss, streamProms := map initial_prom ss,
                  all_prom := promise_all (map initial_prom ss)\<rparr>)))"

definition pending :: "state \<Rightarrow> nat \<Rightarrow> bool" where
  "pending s i = (i < length (streamProms s) \<and> streamProms s ! i = Pending)"

text \<open>The \<open>data\<close>, \<open>end\<close> and \<open>error\<close> listeners of stream \<open>i\<close>.\<close>

definition on_stream_data :: "nat \<Rightarrow> string \<Rightarrow> state \<Rightarrow> state" where
  "on_stream_data i txt s =
     (if listening s i
      then emit [Send_state_update (state_data (downloading @ CHR 0x0A # CHR '' '' # txt))] s
      else s)"

definition on_stream_end :: "request \<Rightarrow> nat \<Rightarrow> state \<Rightarrow> state" where
  "on_stream_end rq i s =
     (if listening s i \<and> pending s i
      then let ps = (streamProms s)[i := Fulfilled] in
        if all_prom s = Pending \<and> all_fulfilled ps
        then on_acquired rq Fulfilled (s\<lparr>streamProms := ps, all_prom := Fulfilled\<rparr>)
        else s\<lparr>streamProms := ps\<rparr>
      else s)"

definition on_stream_error :: "request \<Rightarrow> nat \<Rightarrow> reason \<Rightarrow> state \<Rightarrow> state" where
  "on_stream_error rq i err s =
     (if listening s i \<and> pending s i
      then let ps = (streamProms s)[i := Rejected err] in
        if all_prom s = Pending
        then on_acquired rq (Rejected err) (s\<lparr>streamProms := ps, all_prom := Rejected err\<rparr>)
        else s\<lparr>streamProms := ps\<rparr>
      else s)"

text \<open>
  \<open>unlinkFiles\<close> settles. It is pending in three places of the chain: in the \<open>.catch\<close>
  after the acquisition, in the handler of the engine's result, and in the \<open>.catch\<close>
  after that handler. A rejection in the result handler is caught by the \<open>.catch\<close> that
  follows it; a rejection in that \<open>.catch\<close> reaches the outer \<open>.catch\<close> of
  \<open>startPipeline\<close>; a rejection after the acquisition rejects the whole chain. The callback
  that builds the record reads the error first: for a nullish error that read throws
  before anything is assigned or sent.
\<close>

definition on_unlink :: "request \<Rightarrow> unit settled \<Rightarrow> state \<Rightarrow> state" where
  "on_unlink rq r s =
     (case phase s of
        Cleaning_acquisition err \<Rightarrow>
          (case r of
             Resolves u \<Rightarrow>
               (if err = RNullish then s\<lparr>phase := Chain_rejected (type_error ''message'')\<rparr>
                else then_prune (send_run_error rq (error3 err) s))
           | Rejects e \<Rightarrow> s\<lparr>phase := Chain_rejected e\<rparr>)
      | Cleaning_completed results \<Rightarrow>
          (case r of
             Resolves u \<Rightarrow>
               (if run_type rq = ''local''
                then emit [Send_local_run_complete (consortium_name rq) results]
                       (s\<lparr>phase := Chain_fulfilled, run_results := Some results, run_ended := True\<rparr>)
                else s\<lparr>phase := Chain_fulfilled\<rparr>)
           | Rejects e \<Rightarrow> on_result_error rq e s)
      | Cleaning_failed err \<Rightarrow>
          (case r of
             Resolves u \<Rightarrow>
               (if err = RNullish then outer_catch rq (type_error ''message'') s
                else send_run_error rq (error4 err) (s\<lparr>phase := Chain_fulfilled\<rparr>))
           | Rejects e \<Rightarrow> outer_catch rq e s)
      | _ \<Rightarrow> s)"

text \<open>
  \<open>pruneImages\<close> settles: the next \<open>.then\<close> logs, notifies and calls
  \<open>initializedCore.startPipeline\<close>; nothing catches a rejection of the prune, nor the
  exception of that call when \<open>initializedCore\<close> is cleared.
\<close>

definition on_prune :: "request \<Rightarrow> unit settled \<Rightarrow> state \<Rightarrow> state" where
  "on_prune rq r s =
     (if phase s \<noteq> Pruning then s
      else case r of
        Resolves u \<Rightarrow>
          (if initialized s
           then emit [Log_verbose ''############ Client starting pipeline'',
                      Notify ''Pipeline started''
                        (''Pipeline '' @ pipeline_name (pipelineSnapshot rq)
                           @ '' started on consortia '' @ consortium_name rq),
                      Call_startPipeline (consortium_id rq) (run_id rq)]
                  (s\<lparr>phase := Starting\<rparr>)
           else emit [Log_verbose ''############ Client starting pipeline'',
                      Notify ''Pipeline started''
                        (''Pipeline '' @ pipeline_name (pipelineSnapshot rq)
                           @ '' started on consortia '' @ consortium_name rq)]
                  (s\<lparr>phase := Chain_rejected (type_error ''startPipeline'')\<rparr>))
      | Rejects e \<Rightarrow> s\<lparr>phase := Chain_rejected e\<rparr>)"

text \<open>\<open>startPipeline\<close> settles: the update listener is attached, or the outer \<open>.catch\<close> runs.\<close>

definition on_start :: "request \<Rightarrow> unit settled \<Rightarrow> state \<Rightarrow> state" where
  "on_start rq r s =
     (if phase s \<noteq> Starting then s
      else case r of
        Resolves u \<Rightarrow> s\<lparr>phase := Executing, updates_on := True\<rparr>
      | Rejects e \<Rightarrow> outer_catch rq e s)"

definition on_engine_update :: "jsval \<Rightarrow> state \<Rightarrow> state" where
  "on_engine_update data s = (if updates_on s then emit [Send_state_update data] s else s)"

text \<open>
  The engine's \<open>result\<close> settles. Resolved: log, notify, \<open>initializedCore.unlinkFiles\<close>
  (l.282); with \<open>initializedCore\<close> cleared that call throws and the \<open>.catch\<close> of l.292 runs
  with the TypeError.
\<close>

definition on_result :: "request \<Rightarrow> jsval settled \<Rightarrow> state \<Rightarrow> state" where
  "on_result rq r s =
     (if phase s \<noteq> Executing then s
      else case r of
        Resolves results \<Rightarrow>
          (if initialized s
           then emit [Log_verbose ''########### Client pipeline done'',
                      Notify ''Pipeline finished''
                        (''Pipeline '' @ pipeline_name (pipelineSnapshot rq)
                           @ '' finished on consortia '' @ consortium_name rq),
                      Call_unlinkFiles (run_id rq)]
                  (s\<lparr>phase := Cleaning_completed results\<rparr>)
           else on_result_error rq (type_error ''unlinkFiles'')
                  (emit [Log_verbose ''########### Client pipeline done'',
                         Notify ''Pipeline finished''
                           (''Pipeline '' @ pipeline_name (pipelineSnapshot rq)
                              @ '' finished on consortia '' @ consortium_name rq)] s))
      | Rejects e \<Rightarrow> on_result_error rq e s)"

fun step :: "request \<Rightarrow> state \<Rightarrow> event \<Rightarrow> state" where
  "step rq s (Pull_list_settled r) = on_pull_list rq r s"
| "step rq s (Stream_data i txt) = on_stream_data i txt s"
| "step rq s (Stream_end i) = on_stream_end rq i s"
| "step rq s (Stream_error i err) = on_stream_error rq i err s"
| "step rq s (Unlink_settled r) = on_unlink rq r s"
| "step rq s (Prune_settled r) = on_prune rq r s"
| "step rq s (Start_settled r) = on_start rq r s"
| "step rq s (Engine_update data) = on_engine_update data s"
| "step rq s (Result_settled r) = on_result rq r s"
| "step rq s (Stop_pipeline pipelineId runId r) =
     emit (fst (stop_pipeline pipelineId runId (if initialized s then Some r else None))) s"
| "step rq s Logout = s\<lparr>initialized := False\<rparr>"
| "step rq s Login = s\<lparr>initialized := True\<rparr>"

text \<open>
  The synchronous part of the listener, entered with \<open>initializedCore\<close> set (a pipeline is
  started from a logged-in session): the run is announced, the image list is computed
  and \<open>pullImagesFromList\<close> is called.
\<close>

definition start_pipeline :: "request \<Rightarrow> state" where
  "start_pipeline rq =
     \<lparr>phase = Awaiting_pull, initialized = True, compStreams = [], streamProms = [],
      all_prom = Pending, updates_on = False, run_error = None, run_results = None,
      run_ended = False,
      trace = [Send_save_local_run,
               Call_pullImagesFromList (computationImageList (pipelineSnapshot rq))]\<rparr>"

definition process :: "request \<Rightarrow> state \<Rightarrow> event list \<Rightarrow> state" where
  "process rq s evs = foldl (step rq) s evs"

section \<open>Observations on a run\<close>

fun is_run_error :: "effect \<Rightarrow> bool" where
  "is_run_error (Send_local_run_error c fs) = True"
| "is_run_error e = False"

fun is_start :: "effect \<Rightarrow> bool" where
  "is_start (Call_startPipeline c r) = True"
| "is_start e = False"

fun is_unlink_settled :: "event \<Rightarrow> bool" where
  "is_unlink_settled (Unlink_settled r) = True"
| "is_unlink_settled e = False"


text \<open>
  The state of the aggregate promise agrees with the per-image promises: fulfilled only
  when each of them is, rejected only with the reason of one of them, and not pending
  when one of them is rejected.
\<close>

definition aggregate_agrees :: "state \<Rightarrow> bool" where
  "aggregate_agrees s =
     (case all_prom s of
        Fulfilled \<Rightarrow> all_fulfilled (streamProms s)
      | Rejected r \<Rightarrow> Rejected r \<in> set (streamProms s)
      | Pending \<Rightarrow> first_rejected (streamProms s) = None)"

text \<open>
  The log of a run: each callback, followed by the effects it had (what it appended to
  the trace).
\<close>

datatype entry = Callback event | Effect effect

definition effects_of :: "request \<Rightarrow> state \<Rightarrow> event \<Rightarrow> effect list" where
  "effects_of rq s e = drop (length (trace s)) (trace (step rq s e))"


fun effects_in :: "entry list \<Rightarrow> effect list" where
  "effects_in [] = []"
| "effects_in (Effect x # es) = x # effects_in es"
| "effects_in (Callback e # es) = effects_in es"

text \<open>
  Scanning a log for the order of release, notification and terminal record. The scan
  keeps where the release of the staged files stands: not called, called and pending,
  or settled in the callback being scanned. It fails (\<open>None\<close>) when a terminal record
  (local-run-error, local-run-complete) is sent at a moment other than in the callback
  in which a call of \<open>unlinkFiles\<close> for the run, made in an earlier callback, settles; and
  when a notification of the outcome (\<open>Pipeline finished\<close>, \<open>Pipeline stopped\<close>) is emitted
  while such a call is pending.
\<close>

datatype release = Not_called | Called | Settled

fun scan :: "string \<Rightarrow> release \<Rightarrow> entry list \<Rightarrow> release option" where
  "scan rid r [] = Some r"
| "scan rid r (Callback (Unlink_settled a) # es) =
     scan rid (if r = Called then Settled else Not_called) es"
| "scan rid r (Callback e # es) = scan rid (if r = Called then Called else Not_called) es"
| "scan rid r (Effect (Call_unlinkFiles x) # es) = scan rid (if x = rid then Called else r) es"
| "scan rid r (Effect (Send_local_run_error c fs) # es) =
     (if r = Settled then scan rid Not_called es else None)"
| "scan rid r (Effect (Send_local_run_complete c v) # es) =
     (if r = Settled then scan rid Not_called es else None)"
| "scan rid r (Effect (Notify title body) # es) =
     (if r = Called \<and> (title = ''Pipeline finished'' \<or> title = ''Pipeline stopped'') then None
      else scan rid r es)"
| "scan rid r (Effect x # es) = scan rid r es"

text \<open>The chain waits for \<open>unlinkFiles\<close>.\<close>

fun cleaning :: "phase \<Rightarrow> bool" where
  "cleaning (Cleaning_acquisition err) = True"
| "cleaning (Cleaning_completed results) = True"
| "cleaning (Cleaning_failed err) = True"
| "cleaning p = False"

text \<open>The chain has not reached the \<open>.then\<close> that calls \<open>startPipeline\<close>, or was rejected before it.\<close>

fun pre_start :: "phase \<Rightarrow> bool" where
  "pre_start Awaiting_pull = True"
| "pre_start Acquiring = True"
| "pre_start (Cleaning_acquisition err) = True"
| "pre_start Pruning = True"
| "pre_start p = False"

text \<open>
  What holds of every state the listener reaches: one promise per stream, the aggregate
  agrees with them, no streams before \<open>pullImagesFromList\<close> has settled, and the chain
  waits at the aggregate as long as the aggregate is pending.
\<close>

definition wf :: "state \<Rightarrow> bool" where
  "wf s =
     (length (streamProms s) = length (compStreams s) \<and> aggregate_agrees s
      \<and> (phase s = Awaiting_pull \<longrightarrow> compStreams s = [])
      \<and> (all_prom s = Pending \<and> compStreams s \<noteq> [] \<longrightarrow> phase s = Acquiring))"


section \<open>The login-init listener\<close>

text \<open>
  \<open>configureCore\<close> and \<open>upsertCoinstacUserDir\<close> are modules of the boot directory; the
  listener is given how they answer. The directory argument is
  \<open>appDirectory || config.get('coinstacHome')\<close>.
\<close>

record 'c login_env =
  configureCore :: "string \<Rightarrow> string \<Rightarrow> 'c settled"
  upsertCoinstacUserDir :: "'c \<Rightarrow> unit settled"
  coinstacHome :: string

datatype 'c login_call = Call_configureCore string string | Call_upsertCoinstacUserDir 'c

definition or_home :: "string option \<Rightarrow> string \<Rightarrow> string" where
  "or_home appDirectory home =
     (case appDirectory of None \<Rightarrow> home | Some d \<Rightarrow> if d = [] then home else d)"

definition login_init ::
  "'c login_env \<Rightarrow> string \<Rightarrow> string option \<Rightarrow> 'c option
     \<Rightarrow> 'c option \<times> unit settled \<times> 'c login_call list" where
  "login_init env userId appDirectory initializedCore =
     (case initializedCore of
        Some c \<Rightarrow> (initializedCore, Resolves (), [])
      | None \<Rightarrow>
          (let dir = or_home appDirectory (coinstacHome env) in
           case configureCore env userId dir of
             Rejects e \<Rightarrow> (None, Rejects e, [Call_configureCore userId dir])
           | Resolves c \<Rightarrow>
               (Some c, upsertCoinstacUserDir env c,
                [Call_configureCore userId dir, Call_upsertCoinstacUserDir c])))"

section \<open>The stop-pipeline listener on a session\<close>





section \<open>Example inputs\<close>

definition image_step :: "string \<Rightarrow> pipeline_step" where
  "image_step img = \<lparr>computations = [\<lparr>computation = \<lparr>dockerImage = img\<rparr>\<rparr>]\<rparr>"

definition abA_pipeline :: pipeline where
  "abA_pipeline =
     \<lparr>pipeline_name = ''demo'',
      steps = [image_step ''imgA'', image_step ''imgB'', image_step ''imgA'']\<rparr>"

definition demo_request :: request where
  "demo_request =
     \<lparr>consortium_id = ''c1'', consortium_name = ''cons'', run_id = ''r1'', run_type = ''local'',
      pipelineSnapshot = abA_pipeline\<rparr>"

definition boom :: reason where
  "boom = RObj [(''message'', JStr ''boom''), (''input'', JObj [(''x'', JNum 1)])]"

definition pull_failed :: reason where
  "pull_failed = RObj [(''message'', JStr ''pull failed''), (''stack'', JStr ''at pull'')]"

definition unlink_failed :: reason where
  "unlink_failed = RObj [(''message'', JStr ''EBUSY''), (''stack'', JStr ''at unlink'')]"

definition ok :: "unit settled" where
  "ok = Resolves ()"

text \<open>Schedules: the order in which the collaborators answer.\<close>

definition second_pull_fails :: "event list" where
  "second_pull_fails =
     [Pull_list_settled (Resolves [Emitter, Emitter]), Stream_error 1 pull_failed]"

definition pull_fails_then_runs :: "event list" where
  "pull_fails_then_runs =
     [Pull_list_settled (Resolves [Emitter, Emitter]), Stream_error 1 pull_failed, Stream_end 0,
      Unlink_settled ok, Prune_settled ok]"

definition pull_fails_then_completes :: "event list" where
  "pull_fails_then_completes =
     pull_fails_then_runs @ [Start_settled ok, Result_settled (Resolves (JStr ''done'')),
       Unlink_settled ok]"

definition start_rejected :: "event list" where
  "start_rejected = [Pull_list_settled (Resolves []), Prune_settled ok, Start_settled (Rejects boom)]"

definition executing :: "event list" where
  "executing = [Pull_list_settled (Resolves []), Prune_settled ok, Start_settled ok]"

definition result_rejected :: "event list" where
  "result_rejected =
     [Pull_list_settled (Resolves []), Prune_settled ok, Start_settled ok,
      Result_settled (Rejects boom)]"

definition prune_rejected :: "event list" where
  "prune_rejected =
     [Pull_list_settled (Resolves [Emitter]), Stream_end 0, Prune_settled (Rejects unlink_failed),
      Start_settled ok, Result_settled (Resolves (JStr ''done''))]"

definition demo_env :: "nat login_env" where
  "demo_env =
     \<lparr>configureCore = (\<lambda>userId dir. Resolves 1), upsertCoinstacUserDir = (\<lambda>c. Resolves ()),
      coinstacHome = ''/home/coinstac''\<rparr>"


section \<open>The image list\<close>

lemma foldl_append_concat: "foldl (\<lambda>acc val. acc @ val) a xs = a @ concat xs"
  by (induction xs arbitrary: a) simp_all

lemma count_list_concat: "count_list (concat xss) x = sum_list (map (\<lambda>xs. count_list xs x) xss)"
  by (induction xss) simp_all

text \<open>
  C3, as stated, fails: for steps naming imgA, imgB, imgA the list computed before the
  acquisition is imgA, imgB, imgA; the repeated reference is in it twice.
\<close>

theorem image_list_counterexample:
  "computationImageList abA_pipeline = [''imgA'', ''imgB'', ''imgA'']
   \<and> \<not> distinct (computationImageList abA_pipeline)"
  by (simp add: computationImageList_def abA_pipeline_def image_step_def step_images_def)

text \<open>
  C3, amended: the list computed before the acquisition is the concatenation, in step
  order, of the image references of every computation of every step; a reference is in
  it as many times as it occurs across the steps, so nothing is deduplicated.
\<close>

theorem image_list_keeps_every_occurrence:
  "computationImageList p = concat (map step_images (steps p))
   \<and> count_list (computationImageList p) img
       = sum_list (map (\<lambda>st. count_list (step_images st) img) (steps p))"
  by (simp add: computationImageList_def foldl_append_concat count_list_concat comp_def)

section \<open>Session initialisation\<close>

text \<open>
  C9: login-init while the core is already initialised calls neither \<open>configureCore\<close> nor
  \<open>upsertCoinstacUserDir\<close>, leaves \<open>initializedCore\<close> as it is and resolves.
\<close>

theorem login_init_initialized:
  "initializedCore \<noteq> None \<Longrightarrow>
     login_init env userId appDirectory initializedCore = (initializedCore, Resolves (), [])"
  by (auto simp: login_init_def)

theorem login_init_initialized_witness:
  "fst (login_init demo_env ''u'' None None) \<noteq> None
   \<and> login_init demo_env ''v'' (Some ''/tmp'') (fst (login_init demo_env ''u'' None None))
       = (Some 1, Resolves (), [])"
  using login_init_initialized
    [of "fst (login_init demo_env ''u'' None None)" demo_env "''v''" "Some ''/tmp''"]
  by (simp add: login_init_def demo_env_def or_home_def)

section \<open>The run machine\<close>

lemma process_Nil [simp]: "process rq s [] = s"
  by (simp add: process_def)

lemma process_Cons [simp]: "process rq s (e # evs) = process rq (step rq s e) evs"
  by (simp add: process_def)

lemma process_append: "process rq s (xs @ ys) = process rq (process rq s xs) ys"
  by (simp add: process_def)

lemma process_invariant:
  assumes "\<And>s e. P s \<Longrightarrow> P (step rq s e)" and "P s"
  shows "P (process rq s evs)"
  using assms(2) by (induction evs arbitrary: s) (simp_all add: assms(1))

lemma first_rejected_None_iff: "first_rejected ps = None \<longleftrightarrow> (\<forall>r. Rejected r \<notin> set ps)"
  by (induction ps rule: first_rejected.induct) auto

lemma first_rejected_Some: "first_rejected ps = Some r \<Longrightarrow> Rejected r \<in> set ps"
  by (induction ps rule: first_rejected.induct) auto

lemma all_fulfilled_iff: "all_fulfilled ps \<longleftrightarrow> (\<forall>p\<in>set ps. p = Fulfilled)"
  by (simp add: all_fulfilled_def list_all_iff)

lemma in_set_update_other:
  assumes "x \<in> set xs" and "xs ! i \<noteq> x"
  shows "x \<in> set (xs[i := y])"
proof -
  from assms(1) obtain j where j: "j < length xs" "xs ! j = x"
    by (auto simp: in_set_conv_nth)
  with assms(2) have "j \<noteq> i" by auto
  with j have "j < length (xs[i := y])" "xs[i := y] ! j = x" by simp_all
  then show ?thesis by (metis nth_mem)
qed

lemma in_set_updateD: "x \<in> set (xs[i := y]) \<Longrightarrow> x = y \<or> x \<in> set xs"
  using set_update_subset_insert [of xs i y] by auto

lemma promise_all_agrees:
  "(case promise_all ps of
      Fulfilled \<Rightarrow> all_fulfilled ps
    | Rejected r \<Rightarrow> Rejected r \<in> set ps
    | Pending \<Rightarrow> first_rejected ps = None)"
  by (auto simp: promise_all_def dest: first_rejected_Some split: option.splits)

lemmas handler_defs =
  on_pull_list_def on_stream_data_def on_stream_end_def on_stream_error_def on_unlink_def
  on_prune_def on_start_def on_engine_update_def on_result_def on_acquired_def
  on_result_error_def send_run_error_def emit_def acquisition_catch_def then_prune_def
  outer_catch_def

lemma wf_start: "wf (start_pipeline rq)"
  by (simp add: wf_def start_pipeline_def aggregate_agrees_def)

lemma wf_emit [simp]: "wf (emit es s) = wf s"
  by (simp add: wf_def emit_def aggregate_agrees_def cong: pstate.case_cong)

lemma pending_not_all_fulfilled:
  "\<forall>p\<in>set ps. p = Fulfilled \<Longrightarrow> i < length ps \<Longrightarrow> ps ! i = Pending \<Longrightarrow> False"
  by (metis nth_mem pstate.distinct(1))

lemma wf_pull_list: "wf s \<Longrightarrow> wf (on_pull_list rq r s)"
  using promise_all_agrees [of "map initial_prom (case r of Resolves ss \<Rightarrow> ss | _ \<Rightarrow> [])"]
  by (auto simp: on_pull_list_def on_acquired_def acquisition_catch_def then_prune_def wf_def
      aggregate_agrees_def emit_def split: settled.splits pstate.splits)

lemma wf_stream_end: "wf s \<Longrightarrow> wf (on_stream_end rq i s)"
  by (auto simp: on_stream_end_def on_acquired_def then_prune_def wf_def aggregate_agrees_def
      emit_def Let_def pending_def listening_def first_rejected_None_iff all_fulfilled_iff
      dest: in_set_updateD intro: in_set_update_other split: pstate.splits)

lemma wf_stream_error: "wf s \<Longrightarrow> wf (on_stream_error rq i err s)"
  by (auto simp: on_stream_error_def on_acquired_def acquisition_catch_def wf_def
      aggregate_agrees_def emit_def Let_def pending_def listening_def first_rejected_None_iff
      all_fulfilled_iff set_update_memI
      dest: in_set_updateD pending_not_all_fulfilled intro: in_set_update_other split: pstate.splits)

lemma wf_rest:
  "wf s \<Longrightarrow> wf (on_unlink rq r s)"
  "wf s \<Longrightarrow> wf (on_prune rq r s)"
  "wf s \<Longrightarrow> wf (on_start rq r s)"
  "wf s \<Longrightarrow> wf (on_result rq r' s)"
  "wf s \<Longrightarrow> wf (on_engine_update d s)"
  "wf s \<Longrightarrow> wf (on_stream_data i txt s)"
  by (auto simp: on_unlink_def on_prune_def on_start_def on_result_def on_engine_update_def
      on_stream_data_def on_result_error_def send_run_error_def outer_catch_def then_prune_def
      wf_def aggregate_agrees_def emit_def
      split: phase.splits settled.splits pstate.splits)

lemma wf_step: "wf s \<Longrightarrow> wf (step rq s e)"
proof (cases e)
  case (Stop_pipeline p r x)
  assume "wf s"
  then show ?thesis using Stop_pipeline by simp
next
  case Logout
  assume "wf s"
  then show ?thesis using Logout
    by (simp add: wf_def aggregate_agrees_def cong: pstate.case_cong)
next
  case Login
  assume "wf s"
  then show ?thesis using Login
    by (simp add: wf_def aggregate_agrees_def cong: pstate.case_cong)
qed (simp_all add: wf_pull_list wf_stream_end wf_stream_error wf_rest)

lemma wf_process: "wf s \<Longrightarrow> wf (process rq s evs)"
  by (rule process_invariant) (auto intro: wf_step)

lemma wf_reached: "wf (process rq (start_pipeline rq) evs)"
  by (rule wf_process) (rule wf_start)

lemma demo_simps:
  "consortium_id demo_request = ''c1''" "consortium_name demo_request = ''cons''"
  "run_id demo_request = ''r1''" "run_type demo_request = ''local''"
  "pipeline_name (pipelineSnapshot demo_request) = ''demo''"
  "computationImageList (pipelineSnapshot demo_request) = [''imgA'', ''imgB'', ''imgA'']"
  by (simp_all add: demo_request_def abA_pipeline_def computationImageList_def image_step_def
      step_images_def)

lemmas run_simps =
  handler_defs start_pipeline_def demo_simps listening_def pending_def promise_all_def
  all_fulfilled_def error3_def error4_def ok_def state_data_def

subsection \<open>Runs after a failed pull or a rejected start\<close>

text \<open>
  C1 at a failing input: the second of two pulls emits an error, the first ends,
  \<open>unlinkFiles\<close> and \<open>pruneImages\<close> resolve. The \<open>.catch\<close> sends the local-run-error
  record and returns normally, so the chain goes on: \<open>startPipeline\<close> is called for the
  run that was reported as failed.
\<close>

theorem pull_failure_still_starts_pipeline:
  "Send_local_run_error ''cons'' (error3 pull_failed)
     \<in> set (trace (process demo_request (start_pipeline demo_request) pull_fails_then_runs))
   \<and> Call_startPipeline ''c1'' ''r1''
     \<in> set (trace (process demo_request (start_pipeline demo_request) pull_fails_then_runs))
   \<and> phase (process demo_request (start_pipeline demo_request) pull_fails_then_runs) = Starting"
  by (simp add: pull_fails_then_runs_def run_simps pull_failed_def)

text \<open>
  C2 at two failing inputs: when \<open>startPipeline\<close> rejects, the run is ended with a
  local-run-error record and \<open>unlinkFiles\<close> is never called; when a pull fails and the
  pipeline then runs to completion, \<open>unlinkFiles\<close> is called twice for the run.
\<close>

theorem release_count_differs_from_one:
  "count_list (trace (process demo_request (start_pipeline demo_request) start_rejected))
     (Call_unlinkFiles ''r1'') = 0
   \<and> Send_local_run_error ''cons'' (error3 boom)
     \<in> set (trace (process demo_request (start_pipeline demo_request) start_rejected))
   \<and> run_ended (process demo_request (start_pipeline demo_request) start_rejected)
   \<and> count_list (trace (process demo_request (start_pipeline demo_request) pull_fails_then_completes))
     (Call_unlinkFiles ''r1'') = 2"
  by (simp add: start_rejected_def pull_fails_then_completes_def pull_fails_then_runs_def run_simps
      boom_def pull_failed_def)

text \<open>
  The same slip on a third path: the session is logged out while the pipeline runs, the
  result handler throws at the call of \<open>unlinkFiles\<close>, and the outer \<open>.catch\<close> sends the
  record with no release.
\<close>

lemma logout_before_result_skips_release:
  "count_list
     (trace (process demo_request (start_pipeline demo_request)
        (executing @ [Logout, Result_settled (Rejects boom)])))
     (Call_unlinkFiles ''r1'') = 0
   \<and> list_ex is_run_error
     (trace (process demo_request (start_pipeline demo_request)
        (executing @ [Logout, Result_settled (Rejects boom)])))"
  by (simp add: executing_def run_simps boom_def type_error_def)

subsection \<open>The aggregate of the per-image promises\<close>

lemma compStreams_fixed:
  "phase s \<noteq> Awaiting_pull \<Longrightarrow>
     compStreams (step rq s e) = compStreams s \<and> phase (step rq s e) \<noteq> Awaiting_pull"
  by (cases e) (auto simp: handler_defs Let_def split: phase.splits settled.splits)

lemma compStreams_process:
  "phase s \<noteq> Awaiting_pull \<Longrightarrow>
     compStreams (process rq s evs) = compStreams s \<and> phase (process rq s evs) \<noteq> Awaiting_pull"
  by (induction evs arbitrary: s) (simp_all add: compStreams_fixed)

lemma pull_resolved:
  "compStreams (on_pull_list rq (Resolves ss) (start_pipeline rq)) = ss
   \<and> phase (on_pull_list rq (Resolves ss) (start_pipeline rq)) \<noteq> Awaiting_pull
   \<and> all_prom (on_pull_list rq (Resolves ss) (start_pipeline rq))
       = promise_all (map initial_prom ss)"
  by (simp add: handler_defs start_pipeline_def split: pstate.splits)

lemma all_prom_stays:
  "phase s \<noteq> Awaiting_pull \<Longrightarrow> all_prom s \<noteq> Pending \<Longrightarrow> all_prom (step rq s e) = all_prom s"
  by (cases e) (auto simp: handler_defs Let_def split: phase.splits settled.splits)

lemma all_prom_stays_process:
  "phase s \<noteq> Awaiting_pull \<Longrightarrow> all_prom s \<noteq> Pending \<Longrightarrow> all_prom (process rq s evs) = all_prom s"
proof (induction evs arbitrary: s)
  case Nil
  then show ?case by simp
next
  case (Cons e evs)
  from Cons.prems have "all_prom (step rq s e) = all_prom s" by (rule all_prom_stays)
  moreover from Cons.prems(1) have "phase (step rq s e) \<noteq> Awaiting_pull"
    by (simp add: compStreams_fixed)
  ultimately show ?case using Cons.IH [of "step rq s e"] Cons.prems(2) by simp
qed

lemma stream_error_settles:
  assumes "listening s i" and "pending s i"
  shows "streamProms (on_stream_error rq i err s) = (streamProms s)[i := Rejected err]"
    and "all_prom s = Pending \<Longrightarrow> all_prom (on_stream_error rq i err s) = Rejected err"
  using assms by (simp_all add: handler_defs Let_def)

lemma stream_end_settles:
  assumes "listening s i" and "pending s i"
  shows "streamProms (on_stream_end rq i s) = (streamProms s)[i := Fulfilled]"
    and "all_prom s = Pending \<Longrightarrow> all_prom (on_stream_end rq i s)
      = (if all_fulfilled ((streamProms s)[i := Fulfilled]) then Fulfilled else Pending)"
  using assms by (simp_all add: handler_defs Let_def)

text \<open>
  C4, as stated, fails: with two streams, once the second emits an error the aggregate
  is rejected while the first pull is still pending, and the listeners of the first
  stream stay attached.
\<close>

theorem second_pull_fails_counterexample:
  "all_prom (process demo_request (start_pipeline demo_request) second_pull_fails)
     = Rejected pull_failed
   \<and> streamProms (process demo_request (start_pipeline demo_request) second_pull_fails) ! 0
     = Pending
   \<and> listening (process demo_request (start_pipeline demo_request) second_pull_fails) 0"
  by (simp add: second_pull_fails_def run_simps)

text \<open>
  C4, amended. Let \<open>s\<close> be any state reached after \<open>pullImagesFromList\<close> resolved with the
  streams \<open>ss\<close>. The aggregate agrees with the per-image promises: it is fulfilled only
  when every pull has ended, rejected only with the reason of a rejected pull, never
  pending while a pull is rejected. If some pull never started, the aggregate is rejected
  with the message of the first such pull from its creation on. For every emitter
  stream \<open>i\<close>: a data signal is relayed as a state update in every such state (the
  listeners are never detached); while promise \<open>i\<close> is pending, an error signal rejects
  it and an end signal fulfils it, leaving every other promise as it is; and while the
  aggregate is pending too, that error signal rejects the aggregate with its reason,
  once and for all later signals and whatever the other pulls do, and that end signal
  fulfils the aggregate exactly when it was the last pull not yet ended.
\<close>

theorem aggregate_settles_at_first_rejection:
  assumes "s = process rq (start_pipeline rq) (Pull_list_settled (Resolves ss) # evs)"
  shows "aggregate_agrees s
    \<and> (first_rejected (map initial_prom ss) = Some r \<longrightarrow> all_prom s = Rejected r)
    \<and> (i < length ss \<and> ss ! i = Emitter \<longrightarrow>
         trace (step rq s (Stream_data i txt))
           = trace s @ [Send_state_update (state_data (downloading @ CHR 0x0A # CHR '' '' # txt))]
       \<and> (streamProms s ! i = Pending \<longrightarrow>
            streamProms (step rq s (Stream_error i err)) = (streamProms s)[i := Rejected err]
          \<and> streamProms (step rq s (Stream_end i)) = (streamProms s)[i := Fulfilled]
          \<and> (all_prom s = Pending \<longrightarrow>
               all_prom (process rq s (Stream_error i err # later)) = Rejected err
             \<and> all_prom (step rq s (Stream_end i))
                 = (if all_fulfilled ((streamProms s)[i := Fulfilled]) then Fulfilled
                    else Pending))))"
proof -
  let ?s1 = "on_pull_list rq (Resolves ss) (start_pipeline rq)"
  have s: "s = process rq ?s1 evs" using assms by simp
  have wf: "wf s" unfolding assms by (rule wf_reached)
  then have agrees: "aggregate_agrees s" and len: "length (streamProms s) = length (compStreams s)"
    by (simp_all add: wf_def)
  have cs: "compStreams s = ss" and ph: "phase s \<noteq> Awaiting_pull"
    using compStreams_process [of ?s1 rq evs] pull_resolved [of rq ss] s by simp_all
  have unstarted: "all_prom s = Rejected r" if "first_rejected (map initial_prom ss) = Some r"
  proof -
    from that have "all_prom ?s1 = Rejected r"
      using pull_resolved [of rq ss] by (simp add: promise_all_def)
    then show ?thesis
      using all_prom_stays_process [of ?s1 rq evs] pull_resolved [of rq ss] s by simp
  qed
  have emitter:
    "trace (step rq s (Stream_data i txt))
       = trace s @ [Send_state_update (state_data (downloading @ CHR 0x0A # CHR '' '' # txt))]
     \<and> (streamProms s ! i = Pending \<longrightarrow>
          streamProms (step rq s (Stream_error i err)) = (streamProms s)[i := Rejected err]
        \<and> streamProms (step rq s (Stream_end i)) = (streamProms s)[i := Fulfilled]
        \<and> (all_prom s = Pending \<longrightarrow>
             all_prom (process rq s (Stream_error i err # later)) = Rejected err
           \<and> all_prom (step rq s (Stream_end i))
               = (if all_fulfilled ((streamProms s)[i := Fulfilled]) then Fulfilled
                  else Pending)))"
    if i: "i < length ss" "ss ! i = Emitter"
  proof -
    from i cs have l: "listening s i" by (simp add: listening_def)
    then have relay: "trace (step rq s (Stream_data i txt))
        = trace s @ [Send_state_update (state_data (downloading @ CHR 0x0A # CHR '' '' # txt))]"
      by (simp add: on_stream_data_def emit_def)
    have settle:
      "streamProms (step rq s (Stream_error i err)) = (streamProms s)[i := Rejected err]
       \<and> streamProms (step rq s (Stream_end i)) = (streamProms s)[i := Fulfilled]
       \<and> (all_prom s = Pending \<longrightarrow>
            all_prom (process rq s (Stream_error i err # later)) = Rejected err
          \<and> all_prom (step rq s (Stream_end i))
              = (if all_fulfilled ((streamProms s)[i := Fulfilled]) then Fulfilled
                 else Pending))"
      if p: "streamProms s ! i = Pending"
    proof -
      from p i cs len have pe: "pending s i" by (simp add: pending_def)
      have first: "all_prom (process rq s (Stream_error i err # later)) = Rejected err"
        if "all_prom s = Pending"
      proof -
        let ?t = "step rq s (Stream_error i err)"
        have "all_prom ?t = Rejected err"
          using stream_error_settles(2) [OF l pe that] by simp
        moreover have "phase ?t \<noteq> Awaiting_pull"
          by (rule conjunct2 [OF compStreams_fixed [OF ph]])
        ultimately show ?thesis
          using all_prom_stays_process [of ?t rq later] by simp
      qed
      show ?thesis
        using stream_error_settles(1) [OF l pe] stream_end_settles [OF l pe] first by simp
    qed
    from relay settle show ?thesis by blast
  qed
  from agrees unstarted emitter show ?thesis by blast
qed

theorem aggregate_settles_at_first_rejection_witness:
  "all_prom (process demo_request
       (process demo_request (start_pipeline demo_request)
          (Pull_list_settled (Resolves [Emitter, Emitter]) # []))
       (Stream_error 1 pull_failed # [Stream_end 0])) = Rejected pull_failed
   \<and> streamProms (step demo_request
       (process demo_request (start_pipeline demo_request)
          (Pull_list_settled (Resolves [Emitter, Emitter]) # []))
       (Stream_error 1 pull_failed)) = [Pending, Rejected pull_failed]
   \<and> all_prom (process demo_request (start_pipeline demo_request)
       (Pull_list_settled (Resolves [Emitter, Plain ''no daemon'' 500]) # [Stream_end 0]))
     = Rejected (RStr ''no daemon'')"
proof -
  let ?s = "process demo_request (start_pipeline demo_request)
    (Pull_list_settled (Resolves [Emitter, Emitter]) # [])"
  have pending: "streamProms ?s = [Pending, Pending]" "all_prom ?s = Pending"
    by (simp_all add: run_simps)
  have unstarted: "first_rejected (map initial_prom [Emitter, Plain ''no daemon'' 500])
      = Some (RStr ''no daemon'')"
    by simp
  note a = aggregate_settles_at_first_rejection
    [OF refl, where i = 1 and ss = "[Emitter, Emitter]" and rq = demo_request and evs = "[]"
      and err = pull_failed and later = "[Stream_end 0]"]
  note b = aggregate_settles_at_first_rejection
    [OF refl, where ss = "[Emitter, Plain ''no daemon'' 500]" and rq = demo_request
      and evs = "[Stream_end 0]" and r = "RStr ''no daemon''"]
  from a pending have
    "all_prom (process demo_request ?s (Stream_error 1 pull_failed # [Stream_end 0]))
       = Rejected pull_failed"
    "streamProms (step demo_request ?s (Stream_error 1 pull_failed))
       = [Pending, Rejected pull_failed]"
    by simp_all
  moreover from b unstarted have
    "all_prom (process demo_request (start_pipeline demo_request)
       (Pull_list_settled (Resolves [Emitter, Plain ''no daemon'' 500]) # [Stream_end 0]))
     = Rejected (RStr ''no daemon'')"
    by blast
  ultimately show ?thesis by blast
qed

subsection \<open>Release of the staged files, notification and terminal record\<close>



lemma effects_in_append [simp]: "effects_in (map Effect xs @ es) = xs @ effects_in es"
  by (induction xs) simp_all



lemma scan_initial_updates [simp]: "scan rid r (map Effect (initial_updates ss)) = Some r"
  by (induction ss rule: initial_updates.induct) simp_all

lemma scan_stop_pipeline [simp]:
  "scan rid r (map Effect (fst (stop_pipeline pipelineId runId x))) = Some r"
  by (cases "(pipelineId, runId, x)" rule: stop_pipeline.cases) (simp_all add: stop_catch_def)

lemma effects_of_emit:
  "trace (step rq s e) = trace s @ new \<Longrightarrow> effects_of rq s e = new"
  by (simp add: effects_of_def)








text \<open>
  The scan is not passed for nothing: in the log of that run the record is the last
  entry and follows the settlement of the release, and a log in which the record comes in
  the callback that makes the call is refused.
\<close>

lemma scan_refuses_record_without_settlement:
  "scan ''r1'' Not_called
     [Callback (Result_settled (Rejects boom)), Effect (Call_unlinkFiles ''r1''),
      Effect (Send_local_run_error ''cons'' (error4 boom))] = None"
  by simp

subsection \<open>A rejected prune\<close>

lemma not_started_initial_updates [simp]: "\<not> list_ex is_start (initial_updates ss)"
  by (induction ss rule: initial_updates.induct) simp_all

lemma run_error_initial_updates [simp]: "filter is_run_error (initial_updates ss) = []"
  by (induction ss rule: initial_updates.induct) simp_all

lemma stop_pipeline_effects [simp]:
  "\<not> list_ex is_start (fst (stop_pipeline pipelineId runId x))"
  "filter is_run_error (fst (stop_pipeline pipelineId runId x)) = []"
  by (cases "(pipelineId, runId, x)" rule: stop_pipeline.cases; simp add: stop_catch_def)+

lemma rejected_absorbing:
  assumes "wf s" and "phase s = Chain_rejected err"
  shows "phase (step rq s e) = Chain_rejected err
    \<and> list_ex is_start (trace (step rq s e)) = list_ex is_start (trace s)
    \<and> filter is_run_error (trace (step rq s e)) = filter is_run_error (trace s)"
  using assms
  by (cases e) (auto simp: handler_defs wf_def listening_def Let_def split: settled.splits)

lemma rejected_process:
  assumes "wf s" and "phase s = Chain_rejected err"
  shows "phase (process rq s evs) = Chain_rejected err
    \<and> list_ex is_start (trace (process rq s evs)) = list_ex is_start (trace s)
    \<and> filter is_run_error (trace (process rq s evs)) = filter is_run_error (trace s)"
  using assms
proof (induction evs arbitrary: s)
  case Nil
  then show ?case by simp
next
  case (Cons e evs)
  have "wf (step rq s e)" using Cons.prems(1) by (rule wf_step)
  moreover note rejected_absorbing [OF Cons.prems, of rq e]
  ultimately show ?case using Cons.IH [of "step rq s e"] by simp
qed

lemma not_started_step:
  "wf s \<Longrightarrow> pre_start (phase s) \<longrightarrow> \<not> list_ex is_start (trace s)
     \<Longrightarrow> pre_start (phase (step rq s e)) \<longrightarrow> \<not> list_ex is_start (trace (step rq s e))"
  by (cases e)
    (auto simp: handler_defs wf_def listening_def Let_def
      split: phase.splits settled.splits pstate.splits if_splits)

lemma not_started_process:
  "wf s \<Longrightarrow> pre_start (phase s) \<longrightarrow> \<not> list_ex is_start (trace s)
     \<Longrightarrow> pre_start (phase (process rq s evs)) \<longrightarrow> \<not> list_ex is_start (trace (process rq s evs))"
proof (induction evs arbitrary: s)
  case Nil
  then show ?case by simp
next
  case (Cons e evs)
  show ?case
    using Cons.IH [of "step rq s e"] wf_step [OF Cons.prems(1), of rq e]
      not_started_step [OF Cons.prems, of rq e]
    by simp
qed

text \<open>
  C6, as stated, fails: the pull succeeds, \<open>pruneImages\<close> rejects; the chain is rejected,
  \<open>startPipeline\<close> is never called whatever happens later, and the error is not logged.
\<close>

theorem prune_rejection_counterexample:
  "phase (process demo_request (start_pipeline demo_request) prune_rejected)
     = Chain_rejected unlink_failed
   \<and> \<not> list_ex is_start (trace (process demo_request (start_pipeline demo_request) prune_rejected))
   \<and> Log_error unlink_failed
       \<notin> set (trace (process demo_request (start_pipeline demo_request) prune_rejected))"
  by (simp add: prune_rejected_def run_simps)

text \<open>
  C6, amended: when \<open>pruneImages\<close> rejects, the callback of that rejection has no effect
  at all (nothing is logged, sent or called: the rejection is not caught); the
  listener's promise chain is rejected with that reason and stays so; \<open>startPipeline\<close> is
  not called for the run, and no local-run-error record is sent for it.
\<close>

theorem prune_rejection_stops_the_chain:
  assumes "phase (process rq (start_pipeline rq) evs) = Pruning"
  shows "trace (process rq (start_pipeline rq) (evs @ [Prune_settled (Rejects err)]))
      = trace (process rq (start_pipeline rq) evs)
    \<and> phase (process rq (start_pipeline rq) (evs @ Prune_settled (Rejects err) # later))
      = Chain_rejected err
    \<and> \<not> list_ex is_start
        (trace (process rq (start_pipeline rq) (evs @ Prune_settled (Rejects err) # later)))
    \<and> filter is_run_error
        (trace (process rq (start_pipeline rq) (evs @ Prune_settled (Rejects err) # later)))
      = filter is_run_error (trace (process rq (start_pipeline rq) evs))"
proof -
  let ?s = "process rq (start_pipeline rq) evs"
  let ?t = "step rq ?s (Prune_settled (Rejects err))"
  have wf: "wf ?s" by (rule wf_reached)
  have "pre_start (phase ?s) \<longrightarrow> \<not> list_ex is_start (trace ?s)"
  proof (rule not_started_process)
    show "wf (start_pipeline rq)" by (rule wf_start)
    show "pre_start (phase (start_pipeline rq))
        \<longrightarrow> \<not> list_ex is_start (trace (start_pipeline rq))"
      by (simp add: start_pipeline_def)
  qed
  with assms have quiet: "\<not> list_ex is_start (trace ?s)" by simp
  have t: "phase ?t = Chain_rejected err" "trace ?t = trace ?s"
    using assms by (simp_all add: on_prune_def)
  have "wf ?t" using wf by (rule wf_step)
  from rejected_process [OF this t(1), of rq later] t(2) quiet
  show ?thesis by (simp add: process_append)
qed

theorem prune_rejection_stops_the_chain_witness:
  "phase (process demo_request (start_pipeline demo_request)
      [Pull_list_settled (Resolves [Emitter]), Stream_end 0]) = Pruning
   \<and> trace (process demo_request (start_pipeline demo_request)
      ([Pull_list_settled (Resolves [Emitter]), Stream_end 0]
         @ [Prune_settled (Rejects unlink_failed)]))
     = trace (process demo_request (start_pipeline demo_request)
         [Pull_list_settled (Resolves [Emitter]), Stream_end 0])
   \<and> phase (process demo_request (start_pipeline demo_request)
      ([Pull_list_settled (Resolves [Emitter]), Stream_end 0]
         @ Prune_settled (Rejects unlink_failed) # [Start_settled ok])) = Chain_rejected unlink_failed
   \<and> \<not> list_ex is_start (trace (process demo_request (start_pipeline demo_request)
      ([Pull_list_settled (Resolves [Emitter]), Stream_end 0]
         @ Prune_settled (Rejects unlink_failed) # [Start_settled ok])))"
proof -
  have p: "phase (process demo_request (start_pipeline demo_request)
      [Pull_list_settled (Resolves [Emitter]), Stream_end 0]) = Pruning"
    by (simp add: run_simps)
  from prune_rejection_stops_the_chain [OF p, of unlink_failed "[Start_settled ok]"] p
  show ?thesis by blast
qed

subsection \<open>Waiting for the release to settle\<close>

lemma waits_for_unlink:
  assumes "wf s" and "cleaning (phase s)" and "\<not> is_unlink_settled e"
  shows "phase (step rq s e) = phase s
    \<and> filter is_run_error (trace (step rq s e)) = filter is_run_error (trace s)"
  using assms
  by (cases e) (auto simp: handler_defs wf_def listening_def Let_def split: settled.splits)

lemma rejected_stays:
  assumes "phase s \<noteq> Awaiting_pull"
    and "i < length (streamProms s)" and "streamProms s ! i = Rejected r"
  shows "i < length (streamProms (step rq s e)) \<and> streamProms (step rq s e) ! i = Rejected r"
  using assms
  by (cases e)
    (auto simp: handler_defs pending_def Let_def nth_list_update
      split: settled.splits phase.splits)

lemma waits_for_unlink_process:
  assumes "wf s" and "cleaning (phase s)" and "list_all (\<lambda>e. \<not> is_unlink_settled e) evs"
  shows "wf (process rq s evs) \<and> phase (process rq s evs) = phase s
    \<and> filter is_run_error (trace (process rq s evs)) = filter is_run_error (trace s)
    \<and> (i < length (streamProms s) \<and> streamProms s ! i = Rejected r
         \<longrightarrow> i < length (streamProms (process rq s evs))
           \<and> streamProms (process rq s evs) ! i = Rejected r)"
  using assms
proof (induction evs arbitrary: s)
  case Nil
  then show ?case by simp
next
  case (Cons e evs)
  from Cons.prems have e: "\<not> is_unlink_settled e"
    and evs: "list_all (\<lambda>e. \<not> is_unlink_settled e) evs" by simp_all
  have wf': "wf (step rq s e)" using Cons.prems(1) by (rule wf_step)
  note w = waits_for_unlink [OF Cons.prems(1,2) e, of rq]
  then have c: "cleaning (phase (step rq s e))" using Cons.prems(2) by simp
  have "phase s \<noteq> Awaiting_pull" using Cons.prems(2) by auto
  then have "i < length (streamProms s) \<and> streamProms s ! i = Rejected r
      \<longrightarrow> i < length (streamProms (step rq s e)) \<and> streamProms (step rq s e) ! i = Rejected r"
    by (simp add: rejected_stays)
  with Cons.IH [OF wf' c evs] w show ?case by simp
qed

lemma plain_rejects_first:
  "Plain message statusCode \<in> set ss \<Longrightarrow> \<exists>m. first_rejected (map initial_prom ss) = Some (RStr m)"
proof (induction ss)
  case Nil
  then show ?case by simp
next
  case (Cons x ss)
  then show ?case by (cases x) auto
qed

text \<open>
  C7, as stated, fails: the engine's result rejects with an error that carries
  \<open>input\<close>, then \<open>unlinkFiles\<close> rejects; the outer \<open>.catch\<close> sends the only terminal record
  of the run, built from the release error, with no \<open>input\<close> field.
\<close>

theorem result_rejection_counterexample:
  "filter is_run_error
     (trace (process demo_request (start_pipeline demo_request)
        (result_rejected @ [Unlink_settled (Rejects unlink_failed)])))
   = [Send_local_run_error ''cons''
        [(''message'', JStr ''EBUSY''), (''stack'', JStr ''at unlink''), (''error'', JUndefined)]]"
  by (simp add: result_rejected_def run_simps boom_def unlink_failed_def)

text \<open>
  C7, amended: let the engine's result reject with a reason that is not nullish while
  the session is initialised. When the \<open>unlinkFiles\<close> call that follows resolves, the
  record then sent on local-run-error (and stored in the run) has exactly the fields
  message, stack, error and input, each read from the rejection. When that call rejects
  instead, with a reason that is not nullish, the record then sent and stored is built
  by the outer \<open>.catch\<close> from the release error and has exactly the fields message, stack
  and error.
\<close>

theorem result_rejection_record:
  assumes "phase (process rq (start_pipeline rq) evs) = Executing"
    and "initialized (process rq (start_pipeline rq) evs)"
    and "list_all (\<lambda>e. \<not> is_unlink_settled e) mid"
    and "err \<noteq> RNullish" and "e \<noteq> RNullish"
  shows "last (trace (process rq (start_pipeline rq)
        (evs @ Result_settled (Rejects err) # mid @ [Unlink_settled (Resolves ())])))
      = Send_local_run_error (consortium_name rq)
          [(''message'', field err ''message''), (''stack'', field err ''stack''),
           (''error'', field err ''error''), (''input'', field err ''input'')]
    \<and> run_error (process rq (start_pipeline rq)
        (evs @ Result_settled (Rejects err) # mid @ [Unlink_settled (Resolves ())]))
      = Some [(''message'', field err ''message''), (''stack'', field err ''stack''),
           (''error'', field err ''error''), (''input'', field err ''input'')]
    \<and> last (trace (process rq (start_pipeline rq)
        (evs @ Result_settled (Rejects err) # mid @ [Unlink_settled (Rejects e)])))
      = Send_local_run_error (consortium_name rq)
          [(''message'', field e ''message''), (''stack'', field e ''stack''),
           (''error'', field e ''error'')]
    \<and> run_error (process rq (start_pipeline rq)
        (evs @ Result_settled (Rejects err) # mid @ [Unlink_settled (Rejects e)]))
      = Some [(''message'', field e ''message''), (''stack'', field e ''stack''),
           (''error'', field e ''error'')]"
proof -
  let ?s = "process rq (start_pipeline rq) evs"
  let ?t = "step rq ?s (Result_settled (Rejects err))"
  have "wf ?s" by (rule wf_reached)
  then have wf: "wf ?t" by (rule wf_step)
  have t: "phase ?t = Cleaning_failed err"
    using assms(1,2,4) by (simp add: on_result_def on_result_error_def emit_def)
  then have "cleaning (phase ?t)" by simp
  from waits_for_unlink_process [OF wf this assms(3), of rq] t
  have "phase (process rq ?t mid) = Cleaning_failed err" by simp
  then show ?thesis
    using assms(4,5)
    by (simp add: process_append on_unlink_def outer_catch_def send_run_error_def emit_def
        error3_def error4_def)
qed

theorem result_rejection_record_witness:
  "phase (process demo_request (start_pipeline demo_request) executing) = Executing
   \<and> initialized (process demo_request (start_pipeline demo_request) executing)
   \<and> list_all (\<lambda>e. \<not> is_unlink_settled e) [Engine_update (JStr ''tick''), Logout]
   \<and> boom \<noteq> RNullish \<and> unlink_failed \<noteq> RNullish
   \<and> last (trace (process demo_request (start_pipeline demo_request)
        (executing @ Result_settled (Rejects boom) # [Engine_update (JStr ''tick''), Logout]
           @ [Unlink_settled (Resolves ())])))
      = Send_local_run_error ''cons''
          [(''message'', JStr ''boom''), (''stack'', JUndefined), (''error'', JUndefined),
           (''input'', JObj [(''x'', JNum 1)])]
   \<and> last (trace (process demo_request (start_pipeline demo_request)
        (executing @ Result_settled (Rejects boom) # [Engine_update (JStr ''tick''), Logout]
           @ [Unlink_settled (Rejects unlink_failed)])))
      = Send_local_run_error ''cons''
          [(''message'', JStr ''EBUSY''), (''stack'', JStr ''at unlink''), (''error'', JUndefined)]"
proof -
  have p: "phase (process demo_request (start_pipeline demo_request) executing) = Executing"
    and i: "initialized (process demo_request (start_pipeline demo_request) executing)"
    by (simp_all add: executing_def run_simps)
  have m: "list_all (\<lambda>e. \<not> is_unlink_settled e) [Engine_update (JStr ''tick''), Logout]"
    by simp
  have n: "boom \<noteq> RNullish" "unlink_failed \<noteq> RNullish"
    by (simp_all add: boom_def unlink_failed_def)
  have f: "field boom ''message'' = JStr ''boom''" "field boom ''stack'' = JUndefined"
    "field boom ''error'' = JUndefined" "field boom ''input'' = JObj [(''x'', JNum 1)]"
    "field unlink_failed ''message'' = JStr ''EBUSY''"
    "field unlink_failed ''stack'' = JStr ''at unlink''"
    "field unlink_failed ''error'' = JUndefined"
    by (simp_all add: boom_def unlink_failed_def)
  from result_rejection_record [OF p i m n, unfolded f demo_simps] p i m n
  show ?thesis by blast
qed

text \<open>
  C10: when stream \<open>i\<close> is the plain object of a pull that never started, promise \<open>i\<close>
  is rejected with the bare message string and stays so, and once \<open>unlinkFiles\<close> has
  resolved the local-run-error record of the run has the fields message, stack and
  error, all undefined, and no status code.
\<close>

theorem unstarted_pull_record:
  assumes "i < length ss" and "ss ! i = Plain message statusCode"
    and "list_all (\<lambda>e. \<not> is_unlink_settled e) mid"
  shows "streamProms (process rq (start_pipeline rq)
            (Pull_list_settled (Resolves ss) # mid @ [Unlink_settled (Resolves ())])) ! i
      = Rejected (RStr message)
    \<and> filter is_run_error (trace (process rq (start_pipeline rq)
            (Pull_list_settled (Resolves ss) # mid @ [Unlink_settled (Resolves ())])))
      = [Send_local_run_error (consortium_name rq)
           [(''message'', JUndefined), (''stack'', JUndefined), (''error'', JUndefined)]]"
proof -
  let ?s = "on_pull_list rq (Resolves ss) (start_pipeline rq)"
  have "Plain message statusCode \<in> set ss"
    using assms(1,2) by (metis nth_mem)
  from plain_rejects_first [OF this] obtain m
    where m: "first_rejected (map initial_prom ss) = Some (RStr m)" by blast
  have ph: "phase ?s = Cleaning_acquisition (RStr m)"
    and tr: "filter is_run_error (trace ?s) = []"
    and pr: "streamProms ?s = map initial_prom ss"
    using m by (simp_all add: handler_defs start_pipeline_def promise_all_def)
  have rej: "i < length (streamProms ?s) \<and> streamProms ?s ! i = Rejected (RStr message)"
    using assms(1,2) pr by simp
  have "wf (step rq (start_pipeline rq) (Pull_list_settled (Resolves ss)))"
    by (rule wf_step) (rule wf_start)
  then have wf: "wf ?s" by simp
  have "cleaning (phase ?s)" using ph by simp
  from waits_for_unlink_process [OF wf this assms(3), of rq i "RStr message"] ph tr rej
  have "phase (process rq ?s mid) = Cleaning_acquisition (RStr m)"
    and "filter is_run_error (trace (process rq ?s mid)) = []"
    and "streamProms (process rq ?s mid) ! i = Rejected (RStr message)"
    by simp_all
  then show ?thesis
    by (simp add: process_append on_unlink_def then_prune_def send_run_error_def emit_def
        error3_def)
qed

theorem unstarted_pull_record_witness:
  "1 < length [Emitter, Plain ''no daemon'' 500]
   \<and> [Emitter, Plain ''no daemon'' 500] ! 1 = Plain ''no daemon'' 500
   \<and> list_all (\<lambda>e. \<not> is_unlink_settled e) [Stream_data 0 ''layer'', Stream_end 0]
   \<and> streamProms (process demo_request (start_pipeline demo_request)
            (Pull_list_settled (Resolves [Emitter, Plain ''no daemon'' 500])
               # [Stream_data 0 ''layer'', Stream_end 0] @ [Unlink_settled (Resolves ())])) ! 1
      = Rejected (RStr ''no daemon'')
   \<and> filter is_run_error (trace (process demo_request (start_pipeline demo_request)
            (Pull_list_settled (Resolves [Emitter, Plain ''no daemon'' 500])
               # [Stream_data 0 ''layer'', Stream_end 0] @ [Unlink_settled (Resolves ())])))
      = [Send_local_run_error ''cons''
           [(''message'', JUndefined), (''stack'', JUndefined), (''error'', JUndefined)]]"
proof -
  have a: "1 < length [Emitter, Plain ''no daemon'' 500]" by simp
  have a': "[Emitter, Plain ''no daemon'' 500] ! 1 = Plain ''no daemon'' 500" by simp
  have b: "list_all (\<lambda>e. \<not> is_unlink_settled e) [Stream_data 0 ''layer'', Stream_end 0]"
    by simp
  from unstarted_pull_record [OF a a' b, of demo_request] a a' b show ?thesis
    by (simp add: demo_simps)
qed

subsection \<open>The stop-pipeline listener\<close>

text \<open>
  What the \<open>catch\<close> of the listener does when \<open>requestPipelineStop\<close> throws: the error is
  logged and sent to the window on docker-error, and nothing is returned.
\<close>

lemma stop_pipeline_throw_is_sent:
  "err \<noteq> RNullish \<Longrightarrow>
     stop_pipeline pipelineId runId (Some (Stop_throws err))
       = ([Call_requestPipelineStop pipelineId runId, Log_error err,
           Send_docker_error [(''message'', field err ''message''), (''stack'', field err ''stack'')]],
          Returned_undefined)"
  by (simp add: stop_catch_def)



end
